theory Spec2Isabelle
  imports Complex_Main "HOL-Library.AList" "HOL-Library.Sublist" "HOL-Library.Word"
    "HOL-Library.Monad_Syntax"
begin

section \<open>Python values\<close>

text \<open>
  The registry handed to the extractors is untyped Python data: the handler wraps whatever
  a node class's \<^verbatim>\<open>INPUT_TYPES()\<close> returns. The extractors look at a value only through
  \<^verbatim>\<open>isinstance\<close> tests against \<^verbatim>\<open>dict\<close>, \<^verbatim>\<open>list\<close>, \<^verbatim>\<open>tuple\<close> and \<^verbatim>\<open>str\<close>, through its truth
  value, through \<^verbatim>\<open>dict.get\<close> and through indexing and iterating a sequence. A value of any
  other class (a float, a user object) is \<open>PObj b\<close>, of which only the truth value \<open>b\<close> is
  kept. A dict is an association list in insertion order. A \<^verbatim>\<open>str\<close> is the list of its code
  points; the model covers the code points below 256.
\<close>

datatype pyval =
    PNone
  | PBool bool
  | PInt int
  | PStr string
  | PList "pyval list"
  | PTuple "pyval list"
  | PDict "(pyval \<times> pyval) list"
  | PObj bool

type_synonym pydict = "(pyval \<times> pyval) list"

text \<open>Python's truth value of an object, as \<^verbatim>\<open>if not x\<close> and \<^verbatim>\<open>x or y\<close> test it.\<close>

fun truthy :: "pyval \<Rightarrow> bool" where
  "truthy PNone = False"
| "truthy (PBool b) = b"
| "truthy (PInt i) = (i \<noteq> 0)"
| "truthy (PStr s) = (s \<noteq> [])"
| "truthy (PList xs) = (xs \<noteq> [])"
| "truthy (PTuple xs) = (xs \<noteq> [])"
| "truthy (PDict d) = (d \<noteq> [])"
| "truthy (PObj b) = b"

text \<open>\<^verbatim>\<open>a or b\<close>: the first operand when it is true, the second otherwise.\<close>

definition py_or :: "pyval \<Rightarrow> pyval \<Rightarrow> pyval" where
  "py_or a b = (if truthy a then a else b)"

text \<open>\<^verbatim>\<open>d.get(k)\<close> for a string key \<open>k\<close>: the stored value, \<^verbatim>\<open>None\<close> when the key is absent.\<close>

definition dict_get :: "pydict \<Rightarrow> string \<Rightarrow> pyval" where
  "dict_get d k = (case map_of d (PStr k) of None \<Rightarrow> PNone | Some v \<Rightarrow> v)"

text \<open>\<^verbatim>\<open>x if isinstance(x, dict) else {}\<close>.\<close>

fun dict_or_empty :: "pyval \<Rightarrow> pydict" where
  "dict_or_empty (PDict d) = d"
| "dict_or_empty _ = []"

text \<open>\<^verbatim>\<open>isinstance(x, (list, tuple))\<close>, giving the elements of the sequence.\<close>

fun seq_items :: "pyval \<Rightarrow> pyval list option" where
  "seq_items (PList xs) = Some xs"
| "seq_items (PTuple xs) = Some xs"
| "seq_items _ = None"

subsection \<open>Strings\<close>

text \<open>
  \<^verbatim>\<open>str.strip()\<close> removes the white space at both ends. Below code point 256 Python's
  white space is 9 to 13, 28 to 32, 133 and 160.
\<close>

definition is_space :: "char \<Rightarrow> bool" where
  "is_space c =
     (let n = (of_char c :: nat)
      in (9 \<le> n \<and> n \<le> 13) \<or> (28 \<le> n \<and> n \<le> 32) \<or> n = 133 \<or> n = 160)"

definition strip :: "string \<Rightarrow> string" where
  "strip s = rev (dropWhile is_space (rev (dropWhile is_space s)))"

text \<open>
  \<^verbatim>\<open>str.lower()\<close>: below code point 256 the upper-case letters are A to Z and 192 to 222
  without the multiplication sign 215, each 32 below its lower-case letter.
\<close>

definition lower_char :: "char \<Rightarrow> char" where
  "lower_char c =
     (let n = (of_char c :: nat)
      in if (65 \<le> n \<and> n \<le> 90) \<or> (192 \<le> n \<and> n \<le> 222 \<and> n \<noteq> 215)
         then char_of (n + 32) else c)"

definition lower :: "string \<Rightarrow> string" where
  "lower s = map lower_char s"

text \<open>\<^verbatim>\<open>needle in s\<close> on strings, and \<^verbatim>\<open>s.startswith(p)\<close>, \<^verbatim>\<open>s.endswith(p)\<close>.\<close>

fun contains :: "string \<Rightarrow> string \<Rightarrow> bool" where
  "contains needle [] = (needle = [])"
| "contains needle (c # cs) =
     (take (length needle) (c # cs) = needle \<or> contains needle cs)"

definition startswith :: "'a list \<Rightarrow> 'a list \<Rightarrow> bool" where
  "startswith s p = (take (length p) s = p)"

definition endswith :: "'a list \<Rightarrow> 'a list \<Rightarrow> bool" where
  "endswith s p = (length p \<le> length s \<and> drop (length s - length p) s = p)"

section \<open>The extractors\<close>

text \<open>
  One entry of \<^verbatim>\<open>debug_info\<close>: the dict
  \<^verbatim>\<open>{"node": node_name, "key": k, "count": len(first), "sample": list(first)[:3]}\<close>.
\<close>

record debug_rec =
  dbg_node :: pyval
  dbg_key :: string
  dbg_count :: nat
  dbg_sample :: "pyval list"

text \<open>
  The state of the scanning loops is the list \<^verbatim>\<open>out\<close> and the list \<^verbatim>\<open>debug_info\<close>, which
  is \<^verbatim>\<open>None\<close> when no diagnostics were asked for. Python appends to both in place; the model
  passes them along.
\<close>

type_synonym scan = "string list \<times> debug_rec list option"

text \<open>
  The innermost loop, \<^verbatim>\<open>for item in first\<close>: a string that is not blank is appended,
  stripped; anything else is passed over.
\<close>

fun append_items :: "pyval list \<Rightarrow> string list \<Rightarrow> string list" where
  "append_items [] out = out"
| "append_items (PStr s # rest) out =
     append_items rest (if strip s \<noteq> [] then out @ [strip s] else out)"
| "append_items (_ # rest) out = append_items rest out"

text \<open>
  What the loops do with one looked-up field specification \<^verbatim>\<open>lspec\<close> (the body below the
  lookup, shared by \<^verbatim>\<open>_extract_list\<close> and \<^verbatim>\<open>_extract_loras\<close>): nothing when it is false or not a
  sequence or its first element is not a sequence; otherwise the choices are appended to
  \<^verbatim>\<open>out\<close> and, when diagnostics are on and the choice list is not empty, one record to
  \<^verbatim>\<open>debug_info\<close>.
\<close>

definition visit_field :: "pyval \<Rightarrow> string \<Rightarrow> pyval \<Rightarrow> scan \<Rightarrow> scan" where
  "visit_field node_name k lspec st =
     (if \<not> truthy lspec then st
      else case seq_items lspec of
        None \<Rightarrow> st
      | Some [] \<Rightarrow> st
      | Some (first # _) \<Rightarrow>
          (case seq_items first of
             None \<Rightarrow> st
           | Some items \<Rightarrow>
               (append_items items (fst st),
                (case snd st of
                   None \<Rightarrow> None
                 | Some dbg \<Rightarrow>
                     if items \<noteq> []
                     then Some (dbg @ [\<lparr>dbg_node = node_name, dbg_key = k,
                            dbg_count = length items, dbg_sample = take 3 items\<rparr>])
                     else Some dbg))))"

text \<open>
  The loop \<^verbatim>\<open>for k in keys\<close> of \<^verbatim>\<open>_extract_list\<close>: each key is looked up with
  \<^verbatim>\<open>req.get(k) or opt.get(k)\<close> and visited; the loop has no \<^verbatim>\<open>break\<close>.
\<close>

fun visit_keys :: "pyval \<Rightarrow> pydict \<Rightarrow> pydict \<Rightarrow> string list \<Rightarrow> scan \<Rightarrow> scan" where
  "visit_keys node_name req opt [] st = st"
| "visit_keys node_name req opt (k # ks) st =
     visit_keys node_name req opt ks
       (visit_field node_name k (py_or (dict_get req k) (dict_get opt k)) st)"

text \<open>
  The \<^verbatim>\<open>required\<close> and \<^verbatim>\<open>optional\<close> maps of a component, when the component is a dict
  whose \<^verbatim>\<open>"input"\<close> is a dict; \<open>None\<close> stands for the two \<^verbatim>\<open>continue\<close> statements.
\<close>

fun node_inputs :: "pyval \<Rightarrow> (pydict \<times> pydict) option" where
  "node_inputs (PDict spec) =
     (case dict_get spec ''input'' of
        PDict inp \<Rightarrow>
          Some (dict_or_empty (dict_get inp ''required''),
                dict_or_empty (dict_get inp ''optional''))
      | _ \<Rightarrow> None)"
| "node_inputs _ = None"

text \<open>The loop \<^verbatim>\<open>for node_name, spec in object_info.items()\<close> of \<^verbatim>\<open>_extract_list\<close>.\<close>

fun scan_list :: "pydict \<Rightarrow> string list \<Rightarrow> scan \<Rightarrow> scan" where
  "scan_list [] keys st = st"
| "scan_list ((node_name, spec) # rest) keys st =
     scan_list rest keys
       (case node_inputs spec of
          None \<Rightarrow> st
        | Some (req, opt) \<Rightarrow> visit_keys node_name req opt keys st)"

text \<open>
  The loop of \<^verbatim>\<open>_extract_loras\<close>: only components whose name is a string containing
  \<^verbatim>\<open>lora\<close> in any case are looked at, and only their field \<^verbatim>\<open>lora_name\<close>.
\<close>

fun is_lora_key :: "pyval \<Rightarrow> bool" where
  "is_lora_key (PStr s) = contains ''lora'' (lower s)"
| "is_lora_key _ = False"

fun scan_loras :: "pydict \<Rightarrow> scan \<Rightarrow> scan" where
  "scan_loras [] st = st"
| "scan_loras ((key, spec) # rest) st =
     scan_loras rest
       (if \<not> is_lora_key key then st
        else case node_inputs spec of
          None \<Rightarrow> st
        | Some (req, opt) \<Rightarrow>
            visit_field key ''lora_name''
              (py_or (dict_get req ''lora_name'') (dict_get opt ''lora_name'')) st)"

text \<open>
  The closing loop of both extractors: \<^verbatim>\<open>seen\<close> is a set, \<^verbatim>\<open>deduped\<close> a list, and a name
  is appended when it is not in \<^verbatim>\<open>seen\<close> yet.
\<close>

fun dedupe_loop :: "string list \<Rightarrow> string set \<times> string list \<Rightarrow> string set \<times> string list" where
  "dedupe_loop [] st = st"
| "dedupe_loop (name # rest) (seen, deduped) =
     dedupe_loop rest
       (if name \<notin> seen then (insert name seen, deduped @ [name]) else (seen, deduped))"

definition dedupe :: "string list \<Rightarrow> string list" where
  "dedupe out = snd (dedupe_loop out ({}, []))"

text \<open>
  \<^verbatim>\<open>_extract_list(object_info, keys, debug_info)\<close> returns the list \<^verbatim>\<open>deduped\<close>; the second
  component is \<^verbatim>\<open>debug_info\<close> as the call leaves it.
\<close>

definition extract_list :: "pydict \<Rightarrow> string list \<Rightarrow> debug_rec list option \<Rightarrow> scan" where
  "extract_list object_info keys debug_info =
     (case scan_list object_info keys ([], debug_info) of
        (out, dbg) \<Rightarrow> (dedupe out, dbg))"

definition extract_loras :: "pydict \<Rightarrow> debug_rec list option \<Rightarrow> scan" where
  "extract_loras object_info debug_info =
     (case scan_loras object_info ([], debug_info) of
        (out, dbg) \<Rightarrow> (dedupe out, dbg))"

section \<open>The catalog\<close>

text \<open>
  The dict \<^verbatim>\<open>_build_catalog\<close> returns. The key \<^verbatim>\<open>extraction_debug\<close> is present only when
  diagnostics were asked for. Clock readings (\<^verbatim>\<open>time.time()\<close>) are real numbers.
\<close>

record catalog =
  ts :: real
  models_all :: "string list"
  models_ckpt :: "string list"
  models_unet :: "string list"
  loras :: "string list"
  vae :: "string list"
  samplers :: "string list"
  schedulers :: "string list"
  extraction_debug :: "debug_rec list option"

text \<open>
  \<^verbatim>\<open>_build_catalog(object_info, debug)\<close>; \<open>t\<close> is what its call of \<^verbatim>\<open>time.time()\<close> reads. The
  entries of the dict literal are evaluated in the order written, and every extractor call
  appends to the same \<^verbatim>\<open>debug_info\<close>.
\<close>

definition build_catalog :: "pydict \<Rightarrow> bool \<Rightarrow> real \<Rightarrow> catalog" where
  "build_catalog object_info debug t =
     (let debug_info = (if debug then Some [] else None);
          (r_all, d1) = extract_list object_info [''unet_name'', ''ckpt_name'', ''model_name''] debug_info;
          (r_ckpt, d2) = extract_list object_info [''ckpt_name'', ''model_name''] d1;
          (r_unet, d3) = extract_list object_info [''unet_name''] d2;
          (r_loras, d4) = extract_loras object_info d3;
          (r_vae, d5) = extract_list object_info [''vae_name'', ''vae''] d4;
          (r_samplers, d6) = extract_list object_info [''sampler_name''] d5;
          (r_schedulers, d7) = extract_list object_info [''scheduler''] d6
      in \<lparr>ts = t, models_all = r_all, models_ckpt = r_ckpt, models_unet = r_unet,
          loras = r_loras, vae = r_vae, samplers = r_samplers, schedulers = r_schedulers,
          extraction_debug = (if debug then d7 else None)\<rparr>)"

section \<open>The catalog endpoint\<close>

text \<open>
  The module-level dict \<^verbatim>\<open>_catalog_cache = {"ts": 0, "data": None}\<close>.
\<close>

record cache =
  cache_ts :: real
  cache_data :: "catalog option"

definition initial_cache :: cache where
  "initial_cache = \<lparr>cache_ts = 0, cache_data = None\<rparr>"

text \<open>
  A class of the host's \<^verbatim>\<open>NODE_CLASS_MAPPINGS\<close>, as the handler uses it: it has no
  attribute \<^verbatim>\<open>INPUT_TYPES\<close>, or calling it raises, or calling it returns a value. The
  mapping is the list of its items, keyed by the node type names.
\<close>

datatype node_class = NoInputTypes | InputTypesRaises | InputTypes pyval

type_synonym node_mappings = "(string \<times> node_class) list"

text \<open>\<^verbatim>\<open>request.query.get(k, default)\<close>.\<close>

definition query_get :: "(string \<rightharpoonup> string) \<Rightarrow> string \<Rightarrow> string \<Rightarrow> string" where
  "query_get query k d = (case query k of None \<Rightarrow> d | Some v \<Rightarrow> v)"

text \<open>
  What is handed to \<^verbatim>\<open>web.json_response\<close>: the catalog under \<^verbatim>\<open>"ok": True\<close>, the same with
  \<^verbatim>\<open>node_count\<close> and \<^verbatim>\<open>sample_inputs\<close> in diagnostic mode, or the status 500 answer of the
  \<^verbatim>\<open>except\<close> branch. Turning the dict into JSON text is the host's part. An answer
  without diagnostics holds lists of strings and a float, which are always encoded. The
  diagnostic answer holds registry values of any class, and \<^verbatim>\<open>web.json_response\<close> raises
  on what it cannot encode: the handlers take a predicate \<open>encodes\<close> that says which
  diagnostic answers the host's encoder accepts.
\<close>

datatype catalog_response =
    CatalogOk catalog
  | CatalogDebug nat "(string \<times> pyval) list" catalog
  | CatalogError

text \<open>
  One round of the loop \<^verbatim>\<open>for name, cls in NCM.items()\<close>: a class whose \<^verbatim>\<open>INPUT_TYPES\<close>
  raises is skipped; otherwise \<^verbatim>\<open>object_info[name] = {"input": inp}\<close>, and the first three
  true \<^verbatim>\<open>inp\<close> are kept as samples.
\<close>

definition record_node ::
  "string \<Rightarrow> pyval \<Rightarrow> pydict \<times> (string \<times> pyval) list \<Rightarrow> pydict \<times> (string \<times> pyval) list" where
  "record_node name inp st =
     (AList.update (PStr name) (PDict [(PStr ''input'', inp)]) (fst st),
      if length (snd st) < 3 \<and> truthy inp then snd st @ [(name, inp)] else snd st)"

fun collect_nodes ::
  "node_mappings \<Rightarrow> pydict \<times> (string \<times> pyval) list \<Rightarrow> pydict \<times> (string \<times> pyval) list" where
  "collect_nodes [] st = st"
| "collect_nodes ((name, cls) # rest) st =
     collect_nodes rest
       (case cls of
          InputTypesRaises \<Rightarrow> st
        | NoInputTypes \<Rightarrow> record_node name (PDict []) st
        | InputTypes inp \<Rightarrow> record_node name inp st)"

text \<open>
  The handler \<^verbatim>\<open>flowlite_catalog\<close>. \<open>nodes\<close> is what \<^verbatim>\<open>from nodes import NODE_CLASS_MAPPINGS\<close>
  gives (\<open>None\<close> when the import raises); \<open>now\<close> is the handler's own clock reading, \<open>t1\<close>
  and \<open>t2\<close> are the readings of the two calls of \<^verbatim>\<open>_build_catalog\<close>, in the order they are
  made. The cache is assigned before the answer is encoded, inside the same
  \<^verbatim>\<open>try\<close>: when the encoder raises, the answer is the status 500 and the cache keeps
  the new entry. The result is the response, the cache as the call leaves it, and the
  number of times the registry was obtained from the host.
\<close>

definition rebuild_catalog ::
  "(catalog_response \<Rightarrow> bool) \<Rightarrow> node_mappings option \<Rightarrow> bool \<Rightarrow> real \<Rightarrow> real \<Rightarrow> real \<Rightarrow>
     cache \<Rightarrow> catalog_response \<times> cache \<times> nat" where
  "rebuild_catalog encodes nodes debug now t1 t2 c =
     (case nodes of
        None \<Rightarrow> (CatalogError, c, 1)
      | Some NCM \<Rightarrow>
          (let (object_info, sample_inputs) = collect_nodes NCM ([], []);
               catalog = build_catalog object_info debug t1;
               c' = \<lparr>cache_ts = now, cache_data = Some (build_catalog object_info False t2)\<rparr>;
               answer = CatalogDebug (length NCM) sample_inputs catalog
           in (if debug then (if encodes answer then answer else CatalogError)
               else CatalogOk catalog, c', 1)))"

definition flowlite_catalog ::
  "real \<Rightarrow> (catalog_response \<Rightarrow> bool) \<Rightarrow> node_mappings option \<Rightarrow> (string \<rightharpoonup> string) \<Rightarrow>
     real \<Rightarrow> real \<Rightarrow> real \<Rightarrow> cache \<Rightarrow> catalog_response \<times> cache \<times> nat" where
  "flowlite_catalog CACHE_TTL encodes nodes query now t1 t2 c =
     (let refresh = (query_get query ''refresh'' ''0'' = ''1'');
          debug = (query_get query ''debug'' ''0'' = ''1'')
      in case cache_data c of
           None \<Rightarrow> rebuild_catalog encodes nodes debug now t1 t2 c
         | Some data \<Rightarrow>
             if \<not> refresh \<and> now - cache_ts c < CACHE_TTL then (CatalogOk data, c, 0)
             else rebuild_catalog encodes nodes debug now t1 t2 c)"

text \<open>A sequence of catalog requests, each with what the host and the clock give it.\<close>

record catalog_call =
  call_nodes :: "node_mappings option"
  call_query :: "string \<rightharpoonup> string"
  call_now :: real
  call_t1 :: real
  call_t2 :: real

fun serve_catalog ::
  "real \<Rightarrow> (catalog_response \<Rightarrow> bool) \<Rightarrow> catalog_call list \<Rightarrow> cache \<Rightarrow> cache" where
  "serve_catalog CACHE_TTL encodes [] c = c"
| "serve_catalog CACHE_TTL encodes (r # rs) c =
     serve_catalog CACHE_TTL encodes rs
       (fst (snd (flowlite_catalog CACHE_TTL encodes (call_nodes r) (call_query r)
          (call_now r) (call_t1 r) (call_t2 r) c)))"

section \<open>The image codec\<close>

type_synonym bytes = "8 word list"

text \<open>
  The operations of the imaging library that \<^verbatim>\<open>_compress_to_jpeg\<close> calls, over an abstract
  type of images. An operation that raises gives \<open>None\<close>. \<open>pil_paste\<close> gives the
  background as the in-place \<^verbatim>\<open>paste\<close> leaves it.
\<close>

record 'img pil_ops =
  pil_open :: "bytes \<Rightarrow> 'img option"
  pil_mode :: "'img \<Rightarrow> string"
  pil_size :: "'img \<Rightarrow> nat \<times> nat"
  pil_new :: "string \<Rightarrow> nat \<times> nat \<Rightarrow> nat \<times> nat \<times> nat \<Rightarrow> 'img option"
  pil_convert :: "'img \<Rightarrow> string \<Rightarrow> 'img option"
  pil_split :: "'img \<Rightarrow> 'img list option"
  pil_paste :: "'img \<Rightarrow> 'img \<Rightarrow> 'img option \<Rightarrow> 'img option"
  pil_save_jpeg :: "'img \<Rightarrow> int \<Rightarrow> bytes option"

text \<open>\<^verbatim>\<open>from PIL import Image\<close>: an \<^verbatim>\<open>ImportError\<close>, or the library.\<close>

datatype 'img pil_module = ImportError | Pil "'img pil_ops"

text \<open>\<^verbatim>\<open>xs[-1]\<close>, an \<^verbatim>\<open>IndexError\<close> on the empty sequence.\<close>

fun last_item :: "'a list \<Rightarrow> 'a option" where
  "last_item [] = None"
| "last_item xs = Some (last xs)"

text \<open>The colour-mode branch of the \<^verbatim>\<open>try\<close> body: the image that is then saved.\<close>

definition flatten :: "'img pil_ops \<Rightarrow> 'img \<Rightarrow> 'img option" where
  "flatten P img =
     (if pil_mode P img \<in> {''RGBA'', ''LA'', ''P''} then
        do {
          background \<leftarrow> pil_new P ''RGB'' (pil_size P img) (255, 255, 255);
          img1 \<leftarrow> (if pil_mode P img = ''P'' then pil_convert P img ''RGBA'' else Some img);
          if pil_mode P img1 \<in> {''RGBA'', ''LA''} then
            do {
              bands \<leftarrow> pil_split P img1;
              mask \<leftarrow> last_item bands;
              pil_paste P background img1 (Some mask)
            }
          else pil_paste P background img1 None
        }
      else if pil_mode P img \<noteq> ''RGB'' then pil_convert P img ''RGB''
      else Some img)"

text \<open>The whole \<^verbatim>\<open>try\<close> body: \<open>None\<close> when any step raises.\<close>

definition transcode :: "'img pil_ops \<Rightarrow> bytes \<Rightarrow> int \<Rightarrow> bytes option" where
  "transcode P data quality =
     do {
       img \<leftarrow> pil_open P data;
       rgb \<leftarrow> flatten P img;
       pil_save_jpeg P rgb quality
     }"

text \<open>
  \<^verbatim>\<open>_compress_to_jpeg(data, quality)\<close>. Both handlers return the pair
  \<^verbatim>\<open>(data, "image/png")\<close>.
\<close>

definition compress_to_jpeg :: "'img pil_module \<Rightarrow> bytes \<Rightarrow> int \<Rightarrow> bytes \<times> string" where
  "compress_to_jpeg pil data quality =
     (case pil of
        ImportError \<Rightarrow> (data, ''image/png'')
      | Pil P \<Rightarrow>
          (case transcode P data quality of
             None \<Rightarrow> (data, ''image/png'')
           | Some jpeg \<Rightarrow> (jpeg, ''image/jpeg'')))"

section \<open>Paths and files\<close>

text \<open>
  \<^verbatim>\<open>os.path.join\<close> on POSIX: a component that starts with a slash replaces what was joined
  so far; otherwise it is appended, after a slash unless the path so far is empty or ends
  with one.
\<close>

definition join2 :: "string \<Rightarrow> string \<Rightarrow> string" where
  "join2 path b =
     (if startswith b ''/'' then b
      else if path = [] \<or> endswith path ''/'' then path @ b
      else path @ ''/'' @ b)"

definition path_join :: "string \<Rightarrow> string list \<Rightarrow> string" where
  "path_join a ps = foldl join2 a ps"

text \<open>\<^verbatim>\<open>s.split('/')\<close>.\<close>

fun split_slash :: "string \<Rightarrow> string list" where
  "split_slash [] = [[]]"
| "split_slash (c # cs) =
     (if c = CHR ''/'' then [] # split_slash cs
      else (case split_slash cs of
              [] \<Rightarrow> [[c]]
            | w # ws \<Rightarrow> (c # w) # ws))"

text \<open>
  \<^verbatim>\<open>os.path.realpath\<close> on a file system without symbolic links: the path, taken from the
  working directory when it is relative, is walked component by component; an empty
  component and \<^verbatim>\<open>.\<close> are passed over, \<^verbatim>\<open>..\<close> drops the last component kept (none at the
  root), any other name is kept. The result is the kept components, each after a slash,
  or the root.
\<close>

fun resolve_comps :: "string list \<Rightarrow> string list \<Rightarrow> string list" where
  "resolve_comps [] stack = stack"
| "resolve_comps (name # rest) stack =
     resolve_comps rest
       (if name = [] \<or> name = ''.'' then stack
        else if name = ''..'' then butlast stack
        else stack @ [name])"

definition render :: "string list \<Rightarrow> string" where
  "render stack = (if stack = [] then ''/'' else concat (map (\<lambda>c. CHR ''/'' # c) stack))"

definition path_comps :: "string \<Rightarrow> string \<Rightarrow> string list" where
  "path_comps cwd p =
     resolve_comps (split_slash (if startswith p ''/'' then p else cwd @ ''/'' @ p)) []"

definition realpath :: "string \<Rightarrow> string \<Rightarrow> string" where
  "realpath cwd p = render (path_comps cwd p)"

text \<open>
  The file system: what is stored under each canonical path, the working directory, and
  the paths whose removal the system refuses (\<^verbatim>\<open>os.remove\<close> raises on them).
\<close>

datatype entry = File bytes | Directory

record filesystem =
  entries :: "string \<rightharpoonup> entry"
  cwd :: string
  remove_refused :: "string \<Rightarrow> bool"

section \<open>The image endpoint\<close>

text \<open>
  \<^verbatim>\<open>int(s)\<close> on a string: white space around, an optional sign, then decimal digits, where
  single underscores may stand between digits; \<open>None\<close> is the \<^verbatim>\<open>ValueError\<close>. The white space
  \<^verbatim>\<open>int\<close> skips is narrower than that of \<^verbatim>\<open>str.strip\<close>: below code point 256 it is 9 to
  13, 32, 133 and 160 (the separators 28 to 31 are refused). More than 4300 digits,
  the interpreter's default limit, are refused too.
\<close>

definition int_space :: "char \<Rightarrow> bool" where
  "int_space c =
     (let n = (of_char c :: nat)
      in (9 \<le> n \<and> n \<le> 13) \<or> n = 32 \<or> n = 133 \<or> n = 160)"

definition is_digit :: "char \<Rightarrow> bool" where
  "is_digit c = (48 \<le> (of_char c :: nat) \<and> (of_char c :: nat) \<le> 57)"

fun digits_ok :: "string \<Rightarrow> bool" where
  "digits_ok [] = False"
| "digits_ok [c] = is_digit c"
| "digits_ok (c # d # rest) =
     (is_digit c \<and> (if d = CHR ''_'' then digits_ok rest else digits_ok (d # rest)))"

fun digits_value :: "string \<Rightarrow> int \<Rightarrow> int" where
  "digits_value [] acc = acc"
| "digits_value (c # cs) acc =
     digits_value cs (if c = CHR ''_'' then acc else 10 * acc + (of_char c - 48))"

definition py_int :: "string \<Rightarrow> int option" where
  "py_int s =
     (let t = rev (dropWhile int_space (rev (dropWhile int_space s)));
          neg = (t \<noteq> [] \<and> hd t = CHR ''-'');
          body = (if t \<noteq> [] \<and> (hd t = CHR ''-'' \<or> hd t = CHR ''+'') then tl t else t)
      in if digits_ok body \<and> length (filter (\<lambda>c. c \<noteq> CHR ''_'') body) \<le> 4300
         then Some (if neg then - digits_value body 0 else digits_value body 0)
         else None)"

text \<open>
  The settings read from the environment when the module is loaded, and the three
  directories the host's \<^verbatim>\<open>folder_paths\<close> gives.
\<close>

record settings =
  JPEG_QUALITY :: int
  DELETE_AFTER_SEND :: bool
  output_directory :: string
  input_directory :: string
  temp_directory :: string

text \<open>
  The answers of \<^verbatim>\<open>flowlite_image\<close>: the JSON errors with status 400, 403, 404 and 500,
  the image with its content type and the three headers, and the \<^verbatim>\<open>ValueError\<close> of the
  \<^verbatim>\<open>int\<close> conversion, which is raised outside the \<^verbatim>\<open>try\<close> and leaves the handler.
\<close>

datatype image_response =
    FilenameRequired
  | InvalidPath
  | FileNotFound
  | ServerError
  | Unhandled
  | Image bytes string nat nat bool

text \<open>The choice of \<^verbatim>\<open>base_dir\<close> by \<^verbatim>\<open>img_type\<close>.\<close>

definition base_dir_for :: "settings \<Rightarrow> string \<Rightarrow> string" where
  "base_dir_for cfg img_type =
     (if img_type = ''output'' then output_directory cfg
      else if img_type = ''input'' then input_directory cfg
      else if img_type = ''temp'' then temp_directory cfg
      else output_directory cfg)"

definition png_signature :: bytes where
  "png_signature = [0x89, 0x50, 0x4E, 0x47, 0x0D, 0x0A, 0x1A, 0x0A]"

text \<open>
  From \<^verbatim>\<open>original_size = len(data)\<close> to the response: the optional transcoding, which
  sets \<^verbatim>\<open>was_compressed\<close> whenever it is entered, and the removal of the file.
\<close>

definition send_file ::
  "'img pil_module \<Rightarrow> string \<Rightarrow> bool \<Rightarrow> bool \<Rightarrow> int \<Rightarrow> string \<Rightarrow> bytes \<Rightarrow> filesystem \<Rightarrow>
     image_response \<times> filesystem" where
  "send_file pil filename compress delete_after quality full_path data fs =
     (let original_size = length data;
          (body, content_type, was_compressed) =
            (if compress \<and> (endswith (lower filename) ''.png'' \<or> take 8 data = png_signature)
             then (fst (compress_to_jpeg pil data quality),
                   snd (compress_to_jpeg pil data quality), True)
             else (data, ''image/png'', False));
          (deleted, fs') =
            (if delete_after \<and> was_compressed \<and> entries fs full_path \<noteq> None
             then (if remove_refused fs full_path then (False, fs)
                   else (True, fs\<lparr>entries := (entries fs)(full_path := None)\<rparr>))
             else (False, fs))
      in (Image body content_type original_size (length body) deleted, fs'))"

text \<open>
  \<^verbatim>\<open>os.path.realpath\<close> looks every component up in the file system, and the look-up
  raises \<^verbatim>\<open>ValueError\<close> on a name with an embedded NUL.
\<close>

definition realpath_raises :: "string \<Rightarrow> bool" where
  "realpath_raises p = (CHR 0x00 \<in> set p)"

text \<open>
  The \<^verbatim>\<open>try\<close> body of \<^verbatim>\<open>flowlite_image\<close> up to the read. A raising \<^verbatim>\<open>realpath\<close> and
  opening a directory are answered with status 500 by the \<^verbatim>\<open>except\<close> branch.
\<close>

definition serve_path ::
  "settings \<Rightarrow> 'img pil_module \<Rightarrow> string \<Rightarrow> string \<Rightarrow> string \<Rightarrow> bool \<Rightarrow> bool \<Rightarrow> int \<Rightarrow>
     filesystem \<Rightarrow> image_response \<times> filesystem" where
  "serve_path cfg pil filename subfolder img_type compress delete_after quality fs =
     (let base_dir = base_dir_for cfg img_type;
          joined = (if subfolder \<noteq> [] then path_join base_dir [subfolder, filename]
                    else path_join base_dir [filename]);
          full_path = realpath (cwd fs) joined;
          base_real = realpath (cwd fs) base_dir
      in if realpath_raises joined \<or> realpath_raises base_dir then (ServerError, fs)
         else if \<not> startswith full_path base_real then (InvalidPath, fs)
         else case entries fs full_path of
                None \<Rightarrow> (FileNotFound, fs)
              | Some Directory \<Rightarrow> (ServerError, fs)
              | Some (File data) \<Rightarrow>
                  send_file pil filename compress delete_after quality full_path data fs)"

text \<open>The handler \<^verbatim>\<open>flowlite_image\<close>: the response and the file system it leaves.\<close>

definition flowlite_image ::
  "settings \<Rightarrow> 'img pil_module \<Rightarrow> (string \<rightharpoonup> string) \<Rightarrow> filesystem \<Rightarrow>
     image_response \<times> filesystem" where
  "flowlite_image cfg pil query fs =
     (let filename = query_get query ''filename'' [];
          subfolder = query_get query ''subfolder'' [];
          img_type = query_get query ''type'' ''output'';
          compress = (query_get query ''compress'' ''1'' = ''1'');
          delete_after =
            (query_get query ''delete'' (if DELETE_AFTER_SEND cfg then ''1'' else ''0'') = ''1'')
      in case (case query ''quality'' of
                 None \<Rightarrow> Some (JPEG_QUALITY cfg)
               | Some s \<Rightarrow> py_int s) of
           None \<Rightarrow> (Unhandled, fs)
         | Some q \<Rightarrow>
             if filename = [] then (FilenameRequired, fs)
             else serve_path cfg pil filename subfolder img_type compress delete_after
                    (max 1 (min 100 q)) fs)"

section \<open>Notions the properties are stated with\<close>

text \<open>\<^verbatim>\<open>xs.index(x)\<close>: the position of the first occurrence (the length when there is none).\<close>

fun first_index :: "'a list \<Rightarrow> 'a \<Rightarrow> nat" where
  "first_index [] x = 0"
| "first_index (y # ys) x = (if x = y then 0 else Suc (first_index ys x))"

text \<open>
  \<open>r\<close> lists the elements of \<open>out\<close> once each, in the order of their first occurrence in
  \<open>out\<close>.
\<close>

definition first_seen_of :: "string list \<Rightarrow> string list \<Rightarrow> bool" where
  "first_seen_of out r =
     (distinct r \<and> set r = set out \<and>
      sorted_wrt (\<lambda>a b. first_index out a < first_index out b) r)"

text \<open>
  The strings a field specification offers: what visiting it appends to an empty
  \<^verbatim>\<open>out\<close>.
\<close>

definition field_choices :: "pyval \<Rightarrow> string list" where
  "field_choices lspec = fst (visit_field PNone [] lspec ([], None))"

text \<open>The field specification \<^verbatim>\<open>_extract_list\<close> consults for key \<open>k\<close> in a component.\<close>

definition lookup_field :: "pyval \<Rightarrow> string \<Rightarrow> pyval" where
  "lookup_field spec k =
     (case node_inputs spec of
        None \<Rightarrow> PNone
      | Some (req, opt) \<Rightarrow> py_or (dict_get req k) (dict_get opt k))"

text \<open>
  The candidate strings of a registry for a key list, component after component in the
  registry's iteration order and, within a component, key after key: the stream whose
  first occurrences the extractor is to keep.
\<close>

definition node_candidates :: "string list \<Rightarrow> pyval \<times> pyval \<Rightarrow> string list" where
  "node_candidates keys node = concat (map (\<lambda>k. field_choices (lookup_field (snd node) k)) keys)"

definition candidates :: "pydict \<Rightarrow> string list \<Rightarrow> string list" where
  "candidates object_info keys = concat (map (node_candidates keys) object_info)"

definition lora_candidates :: "pydict \<Rightarrow> string list" where
  "lora_candidates object_info =
     concat (map (node_candidates [''lora_name''])
       (filter (\<lambda>node. is_lora_key (fst node)) object_info))"


text \<open>
  A canonical path lies inside a directory when the directory's components are the first
  components of the path.
\<close>

definition inside :: "string \<Rightarrow> string \<Rightarrow> string \<Rightarrow> bool" where
  "inside wd base p = prefix (path_comps wd base) (path_comps wd p)"






text \<open>The cache holds no diagnostic records.\<close>

definition no_diagnostics :: "cache \<Rightarrow> bool" where
  "no_diagnostics c = (case cache_data c of None \<Rightarrow> True | Some d \<Rightarrow> extraction_debug d = None)"

text \<open>The seven lists of a catalog, without its time stamp and diagnostics.\<close>

definition catalog_lists :: "catalog \<Rightarrow> string list list" where
  "catalog_lists c =
     [models_all c, models_ckpt c, models_unet c, loras c, vae c, samplers c, schedulers c]"

text \<open>The catalog a response carries, if any.\<close>

fun response_catalog :: "catalog_response \<Rightarrow> catalog option" where
  "response_catalog (CatalogOk c) = Some c"
| "response_catalog (CatalogDebug n s c) = Some c"
| "response_catalog CatalogError = None"

section \<open>Sample inputs\<close>

text \<open>A registry of one loader node with two model fields, each a choice list.\<close>

definition loader_inputs :: pyval where
  "loader_inputs =
     PDict [(PStr ''required'',
       PDict [(PStr ''ckpt_name'', PTuple [PList [PStr ''a.safetensors'']]),
              (PStr ''model_name'', PTuple [PList [PStr ''b.safetensors'']])])]"

definition loader_registry :: pydict where
  "loader_registry = [(PStr ''Loader'', PDict [(PStr ''input'', loader_inputs)])]"

definition loader_nodes :: "node_mappings option" where
  "loader_nodes = Some [(''Loader'', InputTypes loader_inputs)]"

text \<open>Settings with the defaults of the module and three directories under \<^verbatim>\<open>/data\<close>.\<close>

definition sample_settings :: settings where
  "sample_settings =
     \<lparr>JPEG_QUALITY = 85, DELETE_AFTER_SEND = True, output_directory = ''/data/output'',
      input_directory = ''/data/input'', temp_directory = ''/data/temp''\<rparr>"

text \<open>
  A file system: a file that is no image under the output directory, a file two levels
  down, and a file in a sibling directory whose name begins like the output directory's.
\<close>

definition sample_fs :: filesystem where
  "sample_fs =
     \<lparr>entries = [''/data/output/broken.png'' \<mapsto> File [1, 2, 3],
                 ''/data/output/secret'' \<mapsto> File [4, 5],
                 ''/data/output_secret/key.png'' \<mapsto> File [6, 7, 8, 9]],
      cwd = ''/'',
      remove_refused = (\<lambda>p. False)\<rparr>"

text \<open>A codec that decodes nothing, and one that reads and saves any bytes as RGB.\<close>

definition failing_ops :: "bytes pil_ops" where
  "failing_ops =
     \<lparr>pil_open = (\<lambda>d. None), pil_mode = (\<lambda>i. ''RGB''), pil_size = (\<lambda>i. (0, 0)),
      pil_new = (\<lambda>m sz col. None), pil_convert = (\<lambda>i m. None), pil_split = (\<lambda>i. None),
      pil_paste = (\<lambda>b i m. None), pil_save_jpeg = (\<lambda>i q. None)\<rparr>"

definition working_ops :: "bytes pil_ops" where
  "working_ops =
     \<lparr>pil_open = (\<lambda>d. Some d), pil_mode = (\<lambda>i. ''RGB''), pil_size = (\<lambda>i. (2, 2)),
      pil_new = (\<lambda>m sz col. Some []), pil_convert = (\<lambda>i m. Some i),
      pil_split = (\<lambda>i. Some [i]), pil_paste = (\<lambda>b i m. Some b),
      pil_save_jpeg = (\<lambda>i q. Some [0xFF, 0xD8, 0xFF])\<rparr>"

text \<open>
  Two catalog requests without parameters, 5 seconds apart, with a time to live of 30
  seconds, the first on the empty cache; then a diagnostic request, followed 5 seconds
  later by a diagnostic request and by one that also forces a refresh. The encoder
  accepts every answer (the sample registry holds strings only).
\<close>

definition first_call :: "catalog_response \<times> cache \<times> nat" where
  "first_call =
     flowlite_catalog 30 (\<lambda>r. True) loader_nodes Map.empty 100 101 102 initial_cache"

definition second_call :: "catalog_response \<times> cache \<times> nat" where
  "second_call =
     flowlite_catalog 30 (\<lambda>r. True) loader_nodes Map.empty 105 106 107 (fst (snd first_call))"

definition sample_calls :: "catalog_call list" where
  "sample_calls =
     [\<lparr>call_nodes = loader_nodes, call_query = [''debug'' \<mapsto> ''1''], call_now = 100,
       call_t1 = 101, call_t2 = 102\<rparr>]"

definition hit_call :: "catalog_response \<times> cache \<times> nat" where
  "hit_call =
     flowlite_catalog 30 (\<lambda>r. True) loader_nodes [''debug'' \<mapsto> ''1''] 105 106 107
       (serve_catalog 30 (\<lambda>r. True) sample_calls initial_cache)"

definition refresh_call :: "catalog_response \<times> cache \<times> nat" where
  "refresh_call =
     flowlite_catalog 30 (\<lambda>r. True) loader_nodes
       [''debug'' \<mapsto> ''1'', ''refresh'' \<mapsto> ''1''] 105 106 107
       (serve_catalog 30 (\<lambda>r. True) sample_calls initial_cache)"

section \<open>The closing loop keeps first occurrences\<close>

lemma dedupe_loop_append:
  "dedupe_loop (xs @ ys) st = dedupe_loop ys (dedupe_loop xs st)"
  by (induction xs st rule: dedupe_loop.induct) simp_all

lemma dedupe_loop_seen:
  "fst st = set (snd st) \<Longrightarrow> fst (dedupe_loop xs st) = set (snd (dedupe_loop xs st))"
  by (induction xs st rule: dedupe_loop.induct) auto

lemma dedupe_snoc:
  "dedupe (xs @ [x]) = (if x \<in> set (dedupe xs) then dedupe xs else dedupe xs @ [x])"
proof -
  obtain seen d where st: "dedupe_loop xs ({}, []) = (seen, d)"
    by (cases "dedupe_loop xs ({}, [])")
  have "fst (dedupe_loop xs ({}, [])) = set (snd (dedupe_loop xs ({}, [])))"
    by (rule dedupe_loop_seen) simp
  with st have "seen = set d" by simp
  with st show ?thesis
    by (simp add: dedupe_def dedupe_loop_append)
qed

lemma dedupe_Nil: "dedupe [] = []"
  by (simp add: dedupe_def)

lemma set_dedupe: "set (dedupe xs) = set xs"
  by (induction xs rule: rev_induct) (auto simp: dedupe_Nil dedupe_snoc)

lemma distinct_dedupe: "distinct (dedupe xs)"
  by (induction xs rule: rev_induct) (auto simp: dedupe_Nil dedupe_snoc)

lemma first_index_append: "x \<in> set xs \<Longrightarrow> first_index (xs @ ys) x = first_index xs x"
  by (induction xs) auto

lemma first_index_less: "x \<in> set xs \<Longrightarrow> first_index xs x < length xs"
  by (induction xs) auto

lemma first_index_fresh: "x \<notin> set xs \<Longrightarrow> first_index (xs @ [x]) x = length xs"
  by (induction xs) auto

lemma sorted_dedupe:
  "sorted_wrt (\<lambda>a b. first_index xs a < first_index xs b) (dedupe xs)"
proof (induction xs rule: rev_induct)
  case Nil
  show ?case by (simp add: dedupe_Nil)
next
  case (snoc x xs)
  have keep: "sorted_wrt (\<lambda>a b. first_index (xs @ [x]) a < first_index (xs @ [x]) b) (dedupe xs)"
    using snoc.IH
    by (rule sorted_wrt_mono_rel [rotated]) (simp add: set_dedupe first_index_append)
  show ?case
  proof (cases "x \<in> set xs")
    case True
    with keep show ?thesis by (simp add: dedupe_snoc set_dedupe)
  next
    case False
    have "\<forall>a \<in> set (dedupe xs). first_index (xs @ [x]) a < first_index (xs @ [x]) x"
      using False by (simp add: set_dedupe first_index_append first_index_fresh first_index_less)
    with keep False show ?thesis
      by (simp add: dedupe_snoc set_dedupe sorted_wrt_append)
  qed
qed

lemma first_seen_dedupe: "first_seen_of xs (dedupe xs)"
  by (simp add: first_seen_of_def distinct_dedupe set_dedupe sorted_dedupe)

section \<open>What the scanning loops collect\<close>

lemma append_items_acc: "append_items items out = out @ append_items items []"
proof (induction items arbitrary: out)
  case Nil
  show ?case by simp
next
  case (Cons item rest)
  show ?case
  proof (cases item)
    case (PStr s)
    show ?thesis
      using Cons.IH[of "out @ [strip s]"] Cons.IH[of "[strip s]"] Cons.IH[of out]
      by (simp add: PStr)
  qed (use Cons.IH[of out] in simp_all)
qed

lemma fst_visit_field:
  "fst (visit_field n k lspec (out, dbg)) = out @ field_choices lspec"
  by (simp add: visit_field_def field_choices_def append_items_acc[of _ out]
      split: option.splits list.splits)

lemma visit_field_pair:
  "visit_field n k lspec (out, dbg) =
     (out @ field_choices lspec, snd (visit_field n k lspec (out, dbg)))"
  by (metis fst_visit_field prod.collapse)

lemma field_choices_None: "field_choices PNone = []"
  by (simp add: field_choices_def visit_field_def)

lemma fst_visit_keys:
  "node_inputs spec = Some (req, opt) \<Longrightarrow>
   fst (visit_keys n req opt keys (out, dbg)) = out @ node_candidates keys (m, spec)"
proof (induction keys arbitrary: out dbg)
  case Nil
  show ?case by (simp add: node_candidates_def)
next
  case (Cons k ks)
  have "fst (visit_keys n req opt (k # ks) (out, dbg)) =
        fst (visit_keys n req opt ks (out @ field_choices (py_or (dict_get req k) (dict_get opt k)),
          snd (visit_field n k (py_or (dict_get req k) (dict_get opt k)) (out, dbg))))"
    by (subst visit_keys.simps, subst visit_field_pair) (rule refl)
  also have "\<dots> = (out @ field_choices (py_or (dict_get req k) (dict_get opt k))) @
        node_candidates ks (m, spec)"
    by (rule Cons.IH [OF Cons.prems])
  also have "\<dots> = out @ node_candidates (k # ks) (m, spec)"
    using Cons.prems by (simp add: node_candidates_def lookup_field_def)
  finally show ?case .
qed

lemma visit_keys_pair:
  "node_inputs spec = Some (req, opt) \<Longrightarrow>
   visit_keys n req opt keys (out, dbg) =
     (out @ node_candidates keys (m, spec), snd (visit_keys n req opt keys (out, dbg)))"
  by (metis fst_visit_keys prod.collapse)

lemma node_candidates_no_inputs:
  "node_inputs spec = None \<Longrightarrow> node_candidates keys (m, spec) = []"
  by (simp add: node_candidates_def lookup_field_def field_choices_None)

lemma candidates_Cons:
  "candidates (node # rest) keys = node_candidates keys node @ candidates rest keys"
  by (simp add: candidates_def)

lemma fst_scan_list:
  "fst (scan_list oi keys (out, dbg)) = out @ candidates oi keys"
proof (induction oi arbitrary: out dbg)
  case Nil
  show ?case by (simp add: candidates_def)
next
  case (Cons node rest)
  obtain n spec where node: "node = (n, spec)" by (cases node)
  show ?case
  proof (cases "node_inputs spec")
    case None
    then show ?thesis
      by (simp add: node Cons.IH candidates_Cons node_candidates_no_inputs)
  next
    case (Some ro)
    obtain req opt where ro: "ro = (req, opt)" by (cases ro)
    have ni: "node_inputs spec = Some (req, opt)" using Some ro by simp
    have "fst (scan_list (node # rest) keys (out, dbg)) =
          fst (scan_list rest keys (out @ node_candidates keys (n, spec),
            snd (visit_keys n req opt keys (out, dbg))))"
      unfolding node scan_list.simps ni option.case prod.case
      by (subst visit_keys_pair [OF ni, of n keys out dbg n]) (rule refl)
    then show ?thesis
      by (simp add: node candidates_Cons Cons.IH)
  qed
qed

lemma lora_candidates_Cons:
  "lora_candidates (node # rest) =
     (if is_lora_key (fst node) then node_candidates [''lora_name''] node else []) @
     lora_candidates rest"
  by (simp add: lora_candidates_def)

lemma node_candidates_single:
  "node_inputs spec = Some (req, opt) \<Longrightarrow>
   node_candidates [k] (m, spec) = field_choices (py_or (dict_get req k) (dict_get opt k))"
  by (simp add: node_candidates_def lookup_field_def)

lemma fst_scan_loras:
  "fst (scan_loras oi (out, dbg)) = out @ lora_candidates oi"
proof (induction oi arbitrary: out dbg)
  case Nil
  show ?case by (simp add: lora_candidates_def)
next
  case (Cons node rest)
  obtain n spec where node: "node = (n, spec)" by (cases node)
  show ?case
  proof (cases "is_lora_key n")
    case False
    then show ?thesis by (simp add: node Cons.IH lora_candidates_Cons)
  next
    case True
    show ?thesis
    proof (cases "node_inputs spec")
      case None
      then show ?thesis
        by (simp add: node True Cons.IH lora_candidates_Cons node_candidates_no_inputs)
    next
      case (Some ro)
      obtain req opt where ro: "ro = (req, opt)" by (cases ro)
      have ni: "node_inputs spec = Some (req, opt)" using Some ro by simp
      have "fst (scan_loras (node # rest) (out, dbg)) =
            fst (scan_loras rest (out @ node_candidates [''lora_name''] (n, spec),
              snd (visit_field n ''lora_name''
                (py_or (dict_get req ''lora_name'') (dict_get opt ''lora_name'')) (out, dbg))))"
        unfolding node scan_loras.simps ni option.case prod.case node_candidates_single [OF ni]
        using True by (subst visit_field_pair) simp
      then show ?thesis
        by (simp add: node True lora_candidates_Cons Cons.IH)
    qed
  qed
qed

lemma fst_extract_list: "fst (extract_list oi keys dbg) = dedupe (candidates oi keys)"
  by (simp add: extract_list_def case_prod_beta fst_scan_list)

lemma fst_extract_loras: "fst (extract_loras oi dbg) = dedupe (lora_candidates oi)"
  by (simp add: extract_loras_def case_prod_beta fst_scan_loras)


lemma set_candidates_mono:
  "set ks \<subseteq> set ks' \<Longrightarrow> set (candidates oi ks) \<subseteq> set (candidates oi ks')"
  by (auto simp: candidates_def node_candidates_def)

lemma build_catalog_all:
  "models_all (build_catalog oi debug t) =
     dedupe (candidates oi [''unet_name'', ''ckpt_name'', ''model_name''])"
  by (simp add: build_catalog_def Let_def case_prod_beta fst_extract_list)

lemma build_catalog_ckpt:
  "models_ckpt (build_catalog oi debug t) = dedupe (candidates oi [''ckpt_name'', ''model_name''])"
  by (simp add: build_catalog_def Let_def case_prod_beta fst_extract_list)

lemma build_catalog_unet:
  "models_unet (build_catalog oi debug t) = dedupe (candidates oi [''unet_name''])"
  by (simp add: build_catalog_def Let_def case_prod_beta fst_extract_list)

lemma build_catalog_loras:
  "loras (build_catalog oi debug t) = dedupe (lora_candidates oi)"
  by (simp add: build_catalog_def Let_def case_prod_beta fst_extract_loras)

lemma build_catalog_vae:
  "vae (build_catalog oi debug t) = dedupe (candidates oi [''vae_name'', ''vae''])"
  by (simp add: build_catalog_def Let_def case_prod_beta fst_extract_list)

lemma build_catalog_samplers:
  "samplers (build_catalog oi debug t) = dedupe (candidates oi [''sampler_name''])"
  by (simp add: build_catalog_def Let_def case_prod_beta fst_extract_list)

lemma build_catalog_schedulers:
  "schedulers (build_catalog oi debug t) = dedupe (candidates oi [''scheduler''])"
  by (simp add: build_catalog_def Let_def case_prod_beta fst_extract_list)

section \<open>Properties of the extractors and the catalog\<close>

text \<open>
  Claim C8. For every registry and every key list, the list \<^verbatim>\<open>_extract_list\<close> returns has no
  duplicates, holds exactly the candidate strings, and lists them in the order of their
  first occurrence in the stream of candidates taken component after component in the
  registry's iteration order. The same holds for \<^verbatim>\<open>_extract_loras\<close> and for each of the seven
  lists of the catalog \<^verbatim>\<open>_build_catalog\<close> builds, with or without diagnostics.
\<close>

theorem extract_first_seen:
  "first_seen_of (candidates object_info keys) (fst (extract_list object_info keys debug_info)) \<and>
   first_seen_of (lora_candidates object_info) (fst (extract_loras object_info debug_info)) \<and>
   first_seen_of (candidates object_info [''unet_name'', ''ckpt_name'', ''model_name''])
     (models_all (build_catalog object_info debug t)) \<and>
   first_seen_of (candidates object_info [''ckpt_name'', ''model_name''])
     (models_ckpt (build_catalog object_info debug t)) \<and>
   first_seen_of (candidates object_info [''unet_name''])
     (models_unet (build_catalog object_info debug t)) \<and>
   first_seen_of (lora_candidates object_info) (loras (build_catalog object_info debug t)) \<and>
   first_seen_of (candidates object_info [''vae_name'', ''vae''])
     (vae (build_catalog object_info debug t)) \<and>
   first_seen_of (candidates object_info [''sampler_name''])
     (samplers (build_catalog object_info debug t)) \<and>
   first_seen_of (candidates object_info [''scheduler''])
     (schedulers (build_catalog object_info debug t))"
  unfolding fst_extract_list fst_extract_loras build_catalog_all build_catalog_ckpt
    build_catalog_unet build_catalog_loras build_catalog_vae build_catalog_samplers
    build_catalog_schedulers
  by (intro conjI first_seen_dedupe)

text \<open>
  Claim C9. For every registry, every string of the \<^verbatim>\<open>ckpt\<close> list and every string of the
  \<^verbatim>\<open>unet\<close> list of the built catalog is in its \<^verbatim>\<open>all\<close> list.
\<close>

theorem models_all_superset:
  "set (models_ckpt (build_catalog object_info debug t)) \<subseteq>
     set (models_all (build_catalog object_info debug t)) \<and>
   set (models_unet (build_catalog object_info debug t)) \<subseteq>
     set (models_all (build_catalog object_info debug t))"
proof
  show "set (models_ckpt (build_catalog object_info debug t)) \<subseteq>
     set (models_all (build_catalog object_info debug t))"
    unfolding build_catalog_ckpt build_catalog_all set_dedupe
    by (rule set_candidates_mono) simp
  show "set (models_unet (build_catalog object_info debug t)) \<subseteq>
     set (models_all (build_catalog object_info debug t))"
    unfolding build_catalog_unet build_catalog_all set_dedupe
    by (rule set_candidates_mono) simp
qed

text \<open>
  Claim C3, as stated, fails. On a registry of one component that has both a
  \<^verbatim>\<open>ckpt_name\<close> and a \<^verbatim>\<open>model_name\<close> choice list, the call with the keys \<^verbatim>\<open>ckpt_name\<close>,
  \<^verbatim>\<open>model_name\<close> returns the choices of both fields: the later key contributes
  \<^verbatim>\<open>b.safetensors\<close>, which the first key alone does not give.
\<close>

theorem later_key_contributes:
  "fst (extract_list loader_registry [''ckpt_name'', ''model_name''] None) =
     [''a.safetensors'', ''b.safetensors''] \<and>
   fst (extract_list loader_registry [''ckpt_name''] None) = [''a.safetensors'']"
  by code_simp

text \<open>
  Claim C3, amended. For every component and every requested key, one field specification
  is consulted: the entry of the component's required map when it is there and true,
  otherwise the entry of its optional map. Every requested key contributes the choices of
  its field specification, key after key in the order of the key list within each
  component; a key that matches does not keep later keys from contributing.
\<close>

theorem every_key_contributes:
  "fst (extract_list object_info keys debug_info) =
     dedupe (concat (map (\<lambda>node. concat (map (\<lambda>k. field_choices (lookup_field (snd node) k)) keys))
       object_info)) \<and>
   (node_inputs spec = Some (req, opt) \<longrightarrow>
      lookup_field spec k = (if truthy (dict_get req k) then dict_get req k else dict_get opt k))"
  by (simp add: fst_extract_list candidates_def node_candidates_def lookup_field_def py_or_def
      cong: map_cong)

text \<open>
  The amended claim C3 at the loader registry: the maps of the component are found, the key
  \<^verbatim>\<open>model_name\<close> is looked up in the required map, and with the keys in the other order the
  choices come in that order.
\<close>

theorem every_key_contributes_witness:
  "node_inputs (PDict [(PStr ''input'', loader_inputs)]) =
     Some (dict_or_empty (dict_get (dict_or_empty loader_inputs) ''required''), []) \<and>
   lookup_field (PDict [(PStr ''input'', loader_inputs)]) ''model_name'' =
     PTuple [PList [PStr ''b.safetensors'']] \<and>
   fst (extract_list loader_registry [''model_name'', ''ckpt_name''] None) =
     [''b.safetensors'', ''a.safetensors'']"
proof -
  have ni: "node_inputs (PDict [(PStr ''input'', loader_inputs)]) =
     Some (dict_or_empty (dict_get (dict_or_empty loader_inputs) ''required''), [])"
    by (simp add: loader_inputs_def dict_get_def)
  have d: "dedupe [''b.safetensors'', ''a.safetensors''] = [''b.safetensors'', ''a.safetensors'']"
    by (simp add: dedupe_def)
  have s: "strip ''a.safetensors'' = ''a.safetensors''" "strip ''b.safetensors'' = ''b.safetensors''"
    by (simp_all add: strip_def is_space_def)
  show ?thesis
    using every_key_contributes [of loader_registry "[''model_name'', ''ckpt_name'']" None
        "PDict [(PStr ''input'', loader_inputs)]"
        "dict_or_empty (dict_get (dict_or_empty loader_inputs) ''required'')" "[]" "''model_name''"]
      ni
    by (simp add: d s loader_registry_def loader_inputs_def dict_get_def lookup_field_def py_or_def
        field_choices_def visit_field_def)
qed

section \<open>The catalog cache\<close>

lemma snd_visit_field_None: "snd (visit_field n k lspec st) = None \<longleftrightarrow> snd st = None"
  by (simp add: visit_field_def split: option.splits list.splits)

lemma snd_visit_keys_None: "snd (visit_keys n req opt keys st) = None \<longleftrightarrow> snd st = None"
  by (induction keys arbitrary: st) (simp_all add: snd_visit_field_None)

lemma snd_scan_list_None: "snd (scan_list oi keys st) = None \<longleftrightarrow> snd st = None"
proof (induction oi keys st rule: scan_list.induct)
  case (2 node_name spec rest keys st)
  then show ?case
    by (cases "node_inputs spec") (simp_all add: snd_visit_keys_None case_prod_beta)
qed simp

lemma snd_scan_loras_None: "snd (scan_loras oi st) = None \<longleftrightarrow> snd st = None"
proof (induction oi st rule: scan_loras.induct)
  case (2 key spec rest st)
  then show ?case
    by (cases "node_inputs spec") (simp_all add: snd_visit_field_None case_prod_beta)
qed simp

lemma snd_extract_list_None: "snd (extract_list oi keys dbg) = None \<longleftrightarrow> dbg = None"
  by (simp add: extract_list_def case_prod_beta snd_scan_list_None)

lemma snd_extract_loras_None: "snd (extract_loras oi dbg) = None \<longleftrightarrow> dbg = None"
  by (simp add: extract_loras_def case_prod_beta snd_scan_loras_None)

lemma build_catalog_plain: "extraction_debug (build_catalog oi False t) = None"
  by (simp add: build_catalog_def Let_def case_prod_beta)

lemma build_catalog_debug: "extraction_debug (build_catalog oi True t) \<noteq> None"
  by (simp add: build_catalog_def Let_def case_prod_beta
      snd_extract_list_None snd_extract_loras_None del: not_None_eq)

lemma rebuild_catalog_clean:
  "no_diagnostics c \<Longrightarrow>
   no_diagnostics (fst (snd (rebuild_catalog encodes nodes debug now t1 t2 c)))"
  by (cases nodes)
     (simp_all add: rebuild_catalog_def Let_def case_prod_beta no_diagnostics_def build_catalog_plain)

lemma flowlite_catalog_clean:
  "no_diagnostics c \<Longrightarrow>
   no_diagnostics (fst (snd (flowlite_catalog ttl encodes nodes query now t1 t2 c)))"
  by (cases "cache_data c") (simp_all add: flowlite_catalog_def Let_def rebuild_catalog_clean)

lemma serve_catalog_clean:
  "no_diagnostics c \<Longrightarrow> no_diagnostics (serve_catalog ttl encodes calls c)"
  by (induction calls arbitrary: c) (simp_all add: flowlite_catalog_clean)

lemma initial_cache_clean: "no_diagnostics initial_cache"
  by (simp add: no_diagnostics_def initial_cache_def)

lemma rebuild_catalog_calls: "snd (snd (rebuild_catalog encodes nodes debug now t1 t2 c)) = 1"
  by (cases nodes) (simp_all add: rebuild_catalog_def Let_def case_prod_beta)

lemma flowlite_catalog_hit:
  assumes "flowlite_catalog ttl encodes nodes query now t1 t2 c = (resp, c', n)" and "n = 0"
  shows "\<exists>d. cache_data c = Some d \<and> resp = CatalogOk d \<and> c' = c"
proof (cases "cache_data c")
  case None
  with assms
    rebuild_catalog_calls [of encodes nodes "query_get query ''debug'' ''0'' = ''1''" now t1 t2 c]
  show ?thesis by (simp add: flowlite_catalog_def Let_def)
next
  case (Some d)
  with assms
    rebuild_catalog_calls [of encodes nodes "query_get query ''debug'' ''0'' = ''1''" now t1 t2 c]
  show ?thesis by (auto simp: flowlite_catalog_def Let_def split: if_splits)
qed

lemma rebuild_catalog_debug:
  assumes "rebuild_catalog encodes nodes True now t1 t2 c = (resp, c', n)"
    and "resp \<noteq> CatalogError"
  shows "\<exists>k s d e. resp = CatalogDebug k s d \<and> extraction_debug d \<noteq> None \<and>
           cache_data c' = Some e \<and> extraction_debug e = None"
proof (cases nodes)
  case None
  with assms show ?thesis by (simp add: rebuild_catalog_def)
next
  case (Some NCM)
  with assms show ?thesis
    using build_catalog_debug [of "fst (collect_nodes NCM ([], []))" t1]
    by (auto simp: rebuild_catalog_def Let_def case_prod_beta build_catalog_plain
        split: if_splits)
qed

lemma flowlite_catalog_rebuilt:
  assumes "flowlite_catalog ttl encodes nodes query now t1 t2 c = (resp, c', n)" and "n = 1"
  shows "rebuild_catalog encodes nodes (query_get query ''debug'' ''0'' = ''1'') now t1 t2 c =
           (resp, c', n)"
  using assms
  by (cases "cache_data c") (auto simp: flowlite_catalog_def Let_def split: if_splits)

text \<open>
  Claim C6. After any sequence of catalog requests, from the empty cache, the cache holds
  no diagnostic records, and the next request leaves it so. A request served from the
  cache returns a catalog without diagnostic records. A request that rebuilds with
  diagnostics asked for returns a catalog with diagnostic records, while the catalog it
  stores has none. This holds whatever the host's encoder accepts: when encoding the
  diagnostic answer raises, the request is answered with status 500 and the entry already
  stored has no diagnostic records either.
\<close>

theorem cache_never_diagnostic:
  "no_diagnostics (serve_catalog ttl encodes calls initial_cache) \<and>
   (flowlite_catalog ttl encodes nodes query now t1 t2
      (serve_catalog ttl encodes calls initial_cache) = (resp, c', n) \<longrightarrow>
      no_diagnostics c' \<and>
      (n = 0 \<longrightarrow> (\<exists>d. resp = CatalogOk d \<and> extraction_debug d = None)) \<and>
      (n = 1 \<and> resp \<noteq> CatalogError \<and> query_get query ''debug'' ''0'' = ''1'' \<longrightarrow>
         (\<exists>k s d e. resp = CatalogDebug k s d \<and> extraction_debug d \<noteq> None \<and>
            cache_data c' = Some e \<and> extraction_debug e = None)))"
proof (intro conjI impI)
  let ?c = "serve_catalog ttl encodes calls initial_cache"
  show clean: "no_diagnostics ?c"
    by (rule serve_catalog_clean [OF initial_cache_clean])
  assume call: "flowlite_catalog ttl encodes nodes query now t1 t2 ?c = (resp, c', n)"
  show "no_diagnostics c'"
    using flowlite_catalog_clean [OF clean, of ttl encodes nodes query now t1 t2] call by simp
  show "\<exists>d. resp = CatalogOk d \<and> extraction_debug d = None" if "n = 0"
    using flowlite_catalog_hit [OF call that] clean by (auto simp: no_diagnostics_def)
  show "\<exists>k s d e. resp = CatalogDebug k s d \<and> extraction_debug d \<noteq> None \<and>
            cache_data c' = Some e \<and> extraction_debug e = None"
    if "n = 1 \<and> resp \<noteq> CatalogError \<and> query_get query ''debug'' ''0'' = ''1''"
    using flowlite_catalog_rebuilt [OF call] that
      rebuild_catalog_debug [of encodes nodes now t1 t2 ?c resp c' n]
    by simp
qed

lemma hit_call_n: "snd (snd hit_call) = 0"
  by code_simp

lemma refresh_call_n: "snd (snd refresh_call) = 1"
  by code_simp

lemma refresh_call_ok: "fst refresh_call \<noteq> CatalogError"
  by code_simp


text \<open>
  Claim C6 after one diagnostic request: a diagnostic request 5 seconds later is served
  from the cache without diagnostics, and one that forces a rebuild gets diagnostics
  while the stored catalog has none.
\<close>

theorem cache_never_diagnostic_witness:
  "snd (snd hit_call) = 0 \<and>
   (\<exists>d. fst hit_call = CatalogOk d \<and> extraction_debug d = None) \<and>
   snd (snd refresh_call) = 1 \<and> fst refresh_call \<noteq> CatalogError \<and>
   (\<exists>k s d e. fst refresh_call = CatalogDebug k s d \<and> extraction_debug d \<noteq> None \<and>
      cache_data (fst (snd refresh_call)) = Some e \<and> extraction_debug e = None)"
proof -
  have h: "flowlite_catalog 30 (\<lambda>r. True) loader_nodes [''debug'' \<mapsto> ''1''] 105 106 107
       (serve_catalog 30 (\<lambda>r. True) sample_calls initial_cache) =
       (fst hit_call, fst (snd hit_call), snd (snd hit_call))"
    by (simp add: hit_call_def)
  have r: "flowlite_catalog 30 (\<lambda>r. True) loader_nodes
       [''debug'' \<mapsto> ''1'', ''refresh'' \<mapsto> ''1''] 105 106 107
       (serve_catalog 30 (\<lambda>r. True) sample_calls initial_cache) =
       (fst refresh_call, fst (snd refresh_call), snd (snd refresh_call))"
    by (simp add: refresh_call_def)
  have q: "query_get [''debug'' \<mapsto> ''1'', ''refresh'' \<mapsto> ''1''] ''debug'' ''0'' = ''1''"
    by (simp add: query_get_def)
  have a: "\<exists>d. fst hit_call = CatalogOk d \<and> extraction_debug d = None"
    using cache_never_diagnostic [of 30 "\<lambda>r. True" sample_calls loader_nodes
        "[''debug'' \<mapsto> ''1'']" 105 106 107
        "fst hit_call" "fst (snd hit_call)" "snd (snd hit_call)"] h hit_call_n
    by blast
  have b: "\<exists>k s d e. fst refresh_call = CatalogDebug k s d \<and> extraction_debug d \<noteq> None \<and>
      cache_data (fst (snd refresh_call)) = Some e \<and> extraction_debug e = None"
    using cache_never_diagnostic [of 30 "\<lambda>r. True" sample_calls loader_nodes
        "[''debug'' \<mapsto> ''1'', ''refresh'' \<mapsto> ''1'']" 105 106 107
        "fst refresh_call" "fst (snd refresh_call)" "snd (snd refresh_call)"]
      r q refresh_call_n refresh_call_ok
    by blast
  show ?thesis
    using a b hit_call_n refresh_call_n refresh_call_ok by blast
qed

lemma lists_build_catalog:
  "catalog_lists (build_catalog oi debug t) = catalog_lists (build_catalog oi debug' t')"
  by (simp add: catalog_lists_def build_catalog_all build_catalog_ckpt build_catalog_unet
      build_catalog_loras build_catalog_vae build_catalog_samplers build_catalog_schedulers)

lemma ts_build_catalog: "ts (build_catalog oi debug t) = t"
  by (simp add: build_catalog_def Let_def case_prod_beta)

lemma rebuild_catalog_ok:
  assumes "rebuild_catalog encodes nodes debug now t1 t2 c = (r, c', n)"
    and "r \<noteq> CatalogError"
  shows "\<exists>a b. response_catalog r = Some a \<and> cache_data c' = Some b \<and> cache_ts c' = now \<and>
           catalog_lists a = catalog_lists b \<and> ts a = t1 \<and> ts b = t2"
proof (cases nodes)
  case None
  with assms show ?thesis by (simp add: rebuild_catalog_def)
next
  case (Some NCM)
  let ?oi = "fst (collect_nodes NCM ([], []))"
  have r: "response_catalog r = Some (build_catalog ?oi debug t1)"
    using assms Some
    by (auto simp: rebuild_catalog_def Let_def case_prod_beta split: if_splits)
  have c': "c' = \<lparr>cache_ts = now, cache_data = Some (build_catalog ?oi False t2)\<rparr>"
    using assms(1) Some by (auto simp: rebuild_catalog_def Let_def case_prod_beta)
  show ?thesis
    using r c' lists_build_catalog [of ?oi debug t1 False t2]
    by (simp add: ts_build_catalog)
qed

text \<open>
  Claim C5, amended. Take two consecutive requests without a forced refresh, the second
  within the time to live of the entry the first one leaves. The registry is obtained at
  most once over the two, and the second request returns the stored catalog. When the
  first request answers with a catalog (it may answer with status 500 instead, when the
  registry cannot be obtained or the diagnostic answer cannot be encoded), the seven
  lists of the two catalogs are equal. When the first request is itself served from the
  cache the two catalogs are identical, time stamp included. When the first request
  rebuilds, its catalog carries the clock reading of its own build, and the stored
  catalog, which was built separately, carries the clock reading of that build.
\<close>

theorem consecutive_calls_within_ttl:
  assumes first: "flowlite_catalog ttl encodes nodes1 q1 now1 t1 t1' c0 = (r1, c1, n1)"
    and second: "flowlite_catalog ttl encodes nodes2 q2 now2 t2 t2' c1 = (r2, c2, n2)"
    and norefresh: "query_get q1 ''refresh'' ''0'' \<noteq> ''1''" "query_get q2 ''refresh'' ''0'' \<noteq> ''1''"
    and window: "cache_data c1 \<noteq> None" "now2 - cache_ts c1 < ttl"
  shows "n1 + n2 \<le> 1 \<and>
         (\<exists>b. r2 = CatalogOk b \<and> cache_data c1 = Some b \<and>
            (r1 \<noteq> CatalogError \<longrightarrow>
               (\<exists>a. response_catalog r1 = Some a \<and> catalog_lists a = catalog_lists b \<and>
                  (n1 = 0 \<longrightarrow> a = b) \<and>
                  (n1 = 1 \<longrightarrow> ts a = t1 \<and> ts b = t1'))))"
proof -
  obtain b where b: "cache_data c1 = Some b"
    using window(1) by auto
  have hit2: "r2 = CatalogOk b \<and> n2 = 0"
    using second b norefresh(2) window(2) by (simp add: flowlite_catalog_def Let_def)
  let ?debug = "query_get q1 ''debug'' ''0'' = ''1''"
  show ?thesis
  proof (cases "\<exists>d. cache_data c0 = Some d \<and> now1 - cache_ts c0 < ttl")
    case True
    then obtain d where d: "cache_data c0 = Some d" "now1 - cache_ts c0 < ttl"
      by blast
    have "r1 = CatalogOk d \<and> c1 = c0 \<and> n1 = 0"
      using first d norefresh(1) by (simp add: flowlite_catalog_def Let_def)
    with hit2 b d show ?thesis by simp
  next
    case False
    have reb: "rebuild_catalog encodes nodes1 ?debug now1 t1 t1' c0 = (r1, c1, n1)"
      using first False by (cases "cache_data c0") (simp_all add: flowlite_catalog_def Let_def)
    have n1: "n1 = 1"
      using rebuild_catalog_calls [of encodes nodes1 ?debug now1 t1 t1' c0] reb by simp
    show ?thesis
    proof (cases "r1 = CatalogError")
      case True
      with hit2 b n1 show ?thesis by simp
    next
      case False
      from rebuild_catalog_ok [OF reb False] b hit2 n1 show ?thesis
        by auto
    qed
  qed
qed

text \<open>
  Claim C5, as stated, fails. The first request, on the empty cache, rebuilds and returns
  a catalog stamped 101; the second, 5 seconds later and within the 30 seconds to live,
  returns the stored catalog, stamped 102. The registry was obtained once.
\<close>

theorem rebuilt_and_cached_timestamps_differ:
  "query_get Map.empty ''refresh'' ''0'' \<noteq> ''1'' \<and>
   cache_data (fst (snd first_call)) \<noteq> None \<and>
   (105::real) - cache_ts (fst (snd first_call)) < 30 \<and>
   map_option ts (response_catalog (fst first_call)) = Some 101 \<and>
   map_option ts (response_catalog (fst second_call)) = Some 102 \<and>
   response_catalog (fst first_call) \<noteq> response_catalog (fst second_call) \<and>
   snd (snd first_call) + snd (snd second_call) = 1"
  by code_simp

text \<open>
  The amended claim C5 at the two sample requests: the first rebuilds and answers with a
  catalog, the second is served from the cache 5 seconds later.
\<close>

theorem consecutive_calls_within_ttl_witness:
  "query_get Map.empty ''refresh'' ''0'' \<noteq> ''1'' \<and>
   cache_data (fst (snd first_call)) \<noteq> None \<and>
   (105::real) - cache_ts (fst (snd first_call)) < 30 \<and>
   fst first_call \<noteq> CatalogError \<and>
   snd (snd first_call) + snd (snd second_call) \<le> 1 \<and>
   (\<exists>a b. response_catalog (fst first_call) = Some a \<and> fst second_call = CatalogOk b \<and>
      catalog_lists a = catalog_lists b \<and> ts a = 101 \<and> ts b = 102)"
proof -
  have c1: "flowlite_catalog 30 (\<lambda>r. True) loader_nodes Map.empty 100 101 102 initial_cache =
      (fst first_call, fst (snd first_call), snd (snd first_call))"
    by (simp add: first_call_def)
  have c2: "flowlite_catalog 30 (\<lambda>r. True) loader_nodes Map.empty 105 106 107
      (fst (snd first_call)) = (fst second_call, fst (snd second_call), snd (snd second_call))"
    by (simp add: second_call_def)
  have q: "query_get Map.empty ''refresh'' ''0'' \<noteq> ''1''"
    by (simp add: query_get_def)
  have d: "cache_data (fst (snd first_call)) \<noteq> None"
    by code_simp
  have w: "(105::real) - cache_ts (fst (snd first_call)) < 30"
    by code_simp
  have n: "snd (snd first_call) = 1"
    by code_simp
  have e: "fst first_call \<noteq> CatalogError"
    by code_simp
  show ?thesis
    using consecutive_calls_within_ttl [OF c1 c2 q q d w] q d w n e by auto
qed

section \<open>The transcoder\<close>

lemma decode_failure: "pil_open P data = None \<Longrightarrow> transcode P data quality = None"
  by (simp add: transcode_def)

lemma encode_failure:
  "pil_open P data = Some img \<Longrightarrow> flatten P img = Some rgb \<Longrightarrow>
   pil_save_jpeg P rgb quality = None \<Longrightarrow> transcode P data quality = None"
  by (simp add: transcode_def)

text \<open>
  Claim C7. For every byte string and quality, \<^verbatim>\<open>_compress_to_jpeg\<close> returns the bytes it was
  given, unchanged, with the type \<^verbatim>\<open>image/png\<close> when the codec library cannot be imported,
  when decoding fails, when encoding fails, and when any step of the conversion raises.
  It raises nothing: on every input its result is that pair or a JPEG with the type
  \<^verbatim>\<open>image/jpeg\<close>.
\<close>

theorem compress_to_jpeg_fallback:
  "compress_to_jpeg ImportError data quality = (data, ''image/png'') \<and>
   (pil_open P data = None \<longrightarrow> compress_to_jpeg (Pil P) data quality = (data, ''image/png'')) \<and>
   (pil_open P data = Some img \<and> flatten P img = Some rgb \<and> pil_save_jpeg P rgb quality = None \<longrightarrow>
      compress_to_jpeg (Pil P) data quality = (data, ''image/png'')) \<and>
   (transcode P data quality = None \<longrightarrow>
      compress_to_jpeg (Pil P) data quality = (data, ''image/png'')) \<and>
   (compress_to_jpeg pil data quality = (data, ''image/png'') \<or>
    (\<exists>jpeg. compress_to_jpeg pil data quality = (jpeg, ''image/jpeg'')))"
proof (intro conjI impI)
  show "compress_to_jpeg ImportError data quality = (data, ''image/png'')"
    by (simp add: compress_to_jpeg_def)
  show "compress_to_jpeg (Pil P) data quality = (data, ''image/png'')"
    if "pil_open P data = None"
    using decode_failure [OF that] by (simp add: compress_to_jpeg_def)
  show "compress_to_jpeg (Pil P) data quality = (data, ''image/png'')"
    if "pil_open P data = Some img \<and> flatten P img = Some rgb \<and> pil_save_jpeg P rgb quality = None"
    using encode_failure [of P data img rgb quality] that by (simp add: compress_to_jpeg_def)
  show "compress_to_jpeg (Pil P) data quality = (data, ''image/png'')"
    if "transcode P data quality = None"
    using that by (simp add: compress_to_jpeg_def)
  show "compress_to_jpeg pil data quality = (data, ''image/png'') \<or>
    (\<exists>jpeg. compress_to_jpeg pil data quality = (jpeg, ''image/jpeg''))"
    by (simp add: compress_to_jpeg_def split: pil_module.splits option.splits)
qed

text \<open>
  Claim C7 at a codec that decodes nothing, and at one whose encoder raises.
\<close>

theorem compress_to_jpeg_fallback_witness:
  "pil_open failing_ops [1, 2, 3] = None \<and>
   compress_to_jpeg (Pil failing_ops) [1, 2, 3] 85 = ([1, 2, 3], ''image/png'') \<and>
   pil_open (working_ops\<lparr>pil_save_jpeg := (\<lambda>i q. None)\<rparr>) [1, 2, 3] = Some [1, 2, 3] \<and>
   flatten (working_ops\<lparr>pil_save_jpeg := (\<lambda>i q. None)\<rparr>) [1, 2, 3] = Some [1, 2, 3] \<and>
   compress_to_jpeg (Pil (working_ops\<lparr>pil_save_jpeg := (\<lambda>i q. None)\<rparr>)) [1, 2, 3] 85 =
     ([1, 2, 3], ''image/png'')"
proof -
  have a: "pil_open failing_ops [1, 2, 3] = None"
    by (simp add: failing_ops_def)
  have b: "pil_open (working_ops\<lparr>pil_save_jpeg := (\<lambda>i q. None)\<rparr>) [1, 2, 3] = Some [1, 2, 3]"
    by (simp add: working_ops_def)
  have c: "flatten (working_ops\<lparr>pil_save_jpeg := (\<lambda>i q. None)\<rparr>) [1, 2, 3] = Some [1, 2, 3]"
    by (simp add: working_ops_def flatten_def)
  have d: "pil_save_jpeg (working_ops\<lparr>pil_save_jpeg := (\<lambda>i q. None)\<rparr>) [1, 2, 3] 85 = None"
    by simp
  have e: "compress_to_jpeg (Pil failing_ops) [1, 2, 3] 85 = ([1, 2, 3], ''image/png'')"
    using compress_to_jpeg_fallback [of "[1, 2, 3]" 85 failing_ops] a by blast
  have f: "compress_to_jpeg (Pil (working_ops\<lparr>pil_save_jpeg := (\<lambda>i q. None)\<rparr>)) [1, 2, 3] 85 =
     ([1, 2, 3], ''image/png'')"
    using compress_to_jpeg_fallback [of "[1, 2, 3]" 85 "working_ops\<lparr>pil_save_jpeg := (\<lambda>i q. None)\<rparr>"
        "[1, 2, 3]" "[1, 2, 3]"] b c d by blast
  show ?thesis
    using a b c e f by blast
qed

section \<open>Behaviour of the image endpoint\<close>

text \<open>
  Claim C1 does not hold of the code. A request for \<^verbatim>\<open>broken.png\<close> with the default
  parameters, on a file the codec cannot decode: the transcoder falls back to the bytes of
  the file, the response carries them unchanged as \<^verbatim>\<open>image/png\<close>, and yet the handler
  has set \<^verbatim>\<open>was_compressed\<close>, reports the file as deleted, and the file is gone.
\<close>

theorem passthrough_is_deleted:
  "entries sample_fs ''/data/output/broken.png'' = Some (File [1, 2, 3]) \<and>
   compress_to_jpeg (Pil failing_ops) [1, 2, 3] 85 = ([1, 2, 3], ''image/png'') \<and>
   fst (flowlite_image sample_settings (Pil failing_ops) [''filename'' \<mapsto> ''broken.png''] sample_fs) =
     Image [1, 2, 3] ''image/png'' 3 3 True \<and>
   entries (snd (flowlite_image sample_settings (Pil failing_ops) [''filename'' \<mapsto> ''broken.png'']
     sample_fs)) ''/data/output/broken.png'' = None"
  by code_simp

text \<open>
  Claim C2 does not hold of the code. With the output directory \<^verbatim>\<open>/data/output\<close>, the
  file name \<^verbatim>\<open>../output_secret/key.png\<close> resolves to a path in the sibling directory
  \<^verbatim>\<open>/data/output_secret\<close>, which is not inside the output directory; the comparison of
  the two canonical paths as strings accepts it, and the file is read, sent and removed.
\<close>

theorem sibling_directory_is_served:
  "realpath ''/'' (path_join ''/data/output'' [''../output_secret/key.png'']) =
     ''/data/output_secret/key.png'' \<and>
   \<not> inside ''/'' ''/data/output'' ''/data/output_secret/key.png'' \<and>
   fst (flowlite_image sample_settings (Pil working_ops)
     [''filename'' \<mapsto> ''../output_secret/key.png''] sample_fs) =
     Image [0xFF, 0xD8, 0xFF] ''image/jpeg'' 4 3 True \<and>
   entries (snd (flowlite_image sample_settings (Pil working_ops)
     [''filename'' \<mapsto> ''../output_secret/key.png''] sample_fs)) ''/data/output_secret/key.png'' = None"
  by code_simp


lemma base_dir_for_unknown:
  "t \<notin> {''output'', ''input'', ''temp''} \<Longrightarrow> base_dir_for cfg t = base_dir_for cfg ''output''"
  by (simp add: base_dir_for_def)

lemma serve_path_unknown:
  "t \<notin> {''output'', ''input'', ''temp''} \<Longrightarrow>
   serve_path cfg pil filename subfolder t compress delete_after quality fs =
   serve_path cfg pil filename subfolder ''output'' compress delete_after quality fs"
  using base_dir_for_unknown [of t cfg] by (simp add: serve_path_def)

text \<open>
  Claim C10. A request whose \<^verbatim>\<open>type\<close> is none of \<^verbatim>\<open>output\<close>, \<^verbatim>\<open>input\<close> and \<^verbatim>\<open>temp\<close> is
  answered exactly as the same request with the type \<^verbatim>\<open>output\<close>: same response, same
  effect on the files.
\<close>

theorem unknown_type_is_output:
  "t \<notin> {''output'', ''input'', ''temp''} \<Longrightarrow>
   flowlite_image cfg pil (query(''type'' \<mapsto> t)) fs =
   flowlite_image cfg pil (query(''type'' \<mapsto> ''output'')) fs"
proof -
  assume t: "t \<notin> {''output'', ''input'', ''temp''}"
  have same: "\<And>filename subfolder compress delete_after quality.
      serve_path cfg pil filename subfolder t compress delete_after quality fs =
      serve_path cfg pil filename subfolder ''output'' compress delete_after quality fs"
    by (rule serve_path_unknown [OF t])
  show ?thesis
    by (simp add: flowlite_image_def query_get_def Let_def same cong: option.case_cong if_cong)
qed

text \<open>
  Claim C10 at the type \<^verbatim>\<open>thumbnails\<close>: the file \<^verbatim>\<open>secret\<close> of the output directory is
  served.
\<close>

theorem unknown_type_is_output_witness:
  "''thumbnails'' \<notin> {''output'', ''input'', ''temp''} \<and>
   flowlite_image sample_settings (Pil working_ops)
     [''filename'' \<mapsto> ''secret'', ''type'' \<mapsto> ''thumbnails''] sample_fs =
   flowlite_image sample_settings (Pil working_ops)
     [''filename'' \<mapsto> ''secret'', ''type'' \<mapsto> ''output''] sample_fs \<and>
   fst (flowlite_image sample_settings (Pil working_ops)
     [''filename'' \<mapsto> ''secret'', ''type'' \<mapsto> ''output''] sample_fs) =
     Image [4, 5] ''image/png'' 2 2 False"
proof -
  have ne: "''thumbnails'' \<notin> {''output'', ''input'', ''temp''}" by simp
  have ev: "fst (flowlite_image sample_settings (Pil working_ops)
     [''filename'' \<mapsto> ''secret'', ''type'' \<mapsto> ''output''] sample_fs) =
     Image [4, 5] ''image/png'' 2 2 False"
    by code_simp
  show ?thesis
    using unknown_type_is_output [OF ne, of sample_settings "Pil working_ops"
        "[''filename'' \<mapsto> ''secret'']" sample_fs] ne ev
    by simp
qed

section \<open>Path resolution\<close>




lemma resolve_comps_append:
  "resolve_comps (xs @ ys) st = resolve_comps ys (resolve_comps xs st)"
  by (induction xs arbitrary: st) simp_all






lemma resolve_comps_empty_tail: "resolve_comps (xs @ [[]]) st = resolve_comps xs st"
  by (simp add: resolve_comps_append)
















end
